theory Spec2Isabelle
  imports Complex_Main "HOL-Library.Word"
begin

section \<open>Data model\<close>

text \<open>
  The annotation overlay of the video analysis screen. Two components cooperate:
  the layer \<^verbatim>\<open>VideoAnnotationLayer\<close> (gesture handlers, hit-testing, the time filter of
  the render) and its host, the screen \<^verbatim>\<open>Analysis\<close> (the annotation list, the three
  mode flags, the text prompt). Coordinates are \<^verbatim>\<open>{ x, y }\<close> objects of real numbers
  and distances are exact. Times are IEEE 754 doubles: a time is the real number the
  double stands for, and every division or subtraction of times is rounded to the nearest
  double. Strings typed by the user are lists of UTF-16 code units.
\<close>

section \<open>Doubles\<close>

text \<open>
  Rounding to the nearest double, ties to even. A positive real is scaled by powers of two
  until its integer part has 53 bits, or until the exponent reaches the least one, - 1074,
  where the subnormal numbers sit, or the greatest one, 971; the scaled value is rounded
  to an integer, ties to the even one, and scaled back.
\<close>

definition roundEven :: "real \<Rightarrow> int" where
  "roundEven x =
     (let n = \<lfloor>x\<rfloor>; r = x - of_int n
      in if r < 1 / 2 then n else if 1 / 2 < r then n + 1 else if even n then n else n + 1)"

function normUp :: "real \<Rightarrow> int \<Rightarrow> real \<times> int" where
  "normUp m e = (if m < 2 ^ 52 \<and> - 1074 < e then normUp (2 * m) (e - 1) else (m, e))"
  by pat_completeness auto
termination
  by (relation "measure (\<lambda>(m, e). nat (e + 1074))") auto

function normDown :: "real \<Rightarrow> int \<Rightarrow> real \<times> int" where
  "normDown m e = (if 2 ^ 53 \<le> m \<and> e < 971 then normDown (m / 2) (e + 1) else (m, e))"
  by pat_completeness auto
termination
  by (relation "measure (\<lambda>(m, e). nat (971 - e))") auto

declare normUp.simps [simp del] normDown.simps [simp del]

definition pow2 :: "int \<Rightarrow> real" where
  "pow2 e = (if 0 \<le> e then 2 ^ nat e else 1 / 2 ^ nat (- e))"

definition roundNearest :: "real \<Rightarrow> real" where
  "roundNearest x =
     (if x = 0 then 0
      else case (if \<bar>x\<bar> < 2 ^ 52 then normUp \<bar>x\<bar> 0 else normDown \<bar>x\<bar> 0) of
             (m, e) \<Rightarrow> sgn x * of_int (roundEven m) * pow2 e)"

text \<open>A result that rounds to \<open>2 ^ 1024\<close> or beyond is no double: the operation gives an
  infinity.\<close>

definition overflows :: "real \<Rightarrow> bool" where
  "overflows x \<longleftrightarrow> 2 ^ 1024 \<le> \<bar>roundNearest x\<bar>"

section \<open>Strings\<close>

text \<open>A JavaScript string is a sequence of 16-bit code units; \<open>utf16\<close> writes an ASCII
  literal as one.\<close>

type_synonym jsstring = "16 word list"

definition utf16 :: "string \<Rightarrow> jsstring" where
  "utf16 str = map (\<lambda>c. of_nat (of_char c)) str"

section \<open>Annotations and the screen\<close>

record point =
  px :: real
  py :: real

text \<open>\<^verbatim>\<open>type: 'line' | 'circle' | 'text'\<close>\<close>

datatype shape = Line | Circle | Text

text \<open>\<^verbatim>\<open>interface Annotation { id; type; points; timestamp; text? }\<close>\<close>

record annotation =
  ann_id :: string
  ann_type :: shape
  points :: "point list"
  timestamp :: real
  ann_text :: "jsstring option"

text \<open>The layer's local state \<^verbatim>\<open>currentDrawing\<close>: \<^verbatim>\<open>{ type: 'line' | 'circle'; points }\<close>.\<close>

datatype draft_type = DraftLine | DraftCircle

fun shape_of :: "draft_type \<Rightarrow> shape" where
  "shape_of DraftLine = Line"
| "shape_of DraftCircle = Circle"

record drawing =
  d_type :: draft_type
  d_points :: "point list"

text \<open>
  What \<^verbatim>\<open>await primaryVideoRef.current?.getStatusAsync()\<close> can give: the promise
  rejects, the ref is null (the optional chain yields undefined), or a status object
  that is not loaded or is loaded with a \<^verbatim>\<open>positionMillis\<close>, itself a double.
\<close>

datatype playback = Rejects | NoRef | NotLoaded | Loaded real

text \<open>\<^verbatim>\<open>status?.isLoaded ? status.positionMillis / 1000 : 0\<close>; a double divided by
  1000 does not overflow.\<close>

fun positionSeconds :: "playback \<Rightarrow> real" where
  "positionSeconds (Loaded positionMillis) = roundNearest (positionMillis / 1000)"
| "positionSeconds _ = 0"

text \<open>
  The state of the screen. All fields but the last are \<^verbatim>\<open>useState\<close> cells of
  \<^verbatim>\<open>Analysis\<close>; \<open>console\<close> collects the messages of \<^verbatim>\<open>console.error\<close>;
  \<open>currentDrawing\<close> is the \<^verbatim>\<open>useState\<close> cell of the layer, which the host cannot
  reach.
\<close>

record screen =
  primaryVideoUri :: "string option"
  secondaryVideoUri :: "string option"
  isDrawingMode :: bool
  isTextMode :: bool
  isEraserMode :: bool
  annotations :: "annotation list"
  textAnnotation :: jsstring
  showTextInput :: bool
  textPosition :: "point option"
  currentTime :: real
  console :: "string list"
  currentDrawing :: "drawing option"

text \<open>The callbacks the layer invokes on its host.\<close>

datatype call =
    AddAnnotation annotation
  | RemoveAnnotation string
  | AddTextAnnotation point

text \<open>\<open>TypeError\<close>: a property of undefined is read.\<close>

datatype error = TypeError

section \<open>Identifiers: \<^verbatim>\<open>Date.now().toString()\<close>\<close>

definition digit :: "nat \<Rightarrow> char" where
  "digit d = char_of (48 + d)"

fun toString :: "nat \<Rightarrow> string" where
  "toString n = (if n < 10 then [digit n] else toString (n div 10) @ [digit (n mod 10)])"

declare toString.simps [simp del]



section \<open>The layer: \<^verbatim>\<open>VideoAnnotationLayer\<close>\<close>

text \<open>
  The render keeps \<^verbatim>\<open>annotations.filter((a) => Math.abs(a.timestamp - currentTime) < 0.1)\<close>.
\<close>

text \<open>
  The subtraction is rounded, \<^verbatim>\<open>Math.abs\<close> is exact, and the literal \<^verbatim>\<open>0.1\<close> is the
  double nearest to one tenth. An infinite difference is not below it.
\<close>

definition isVisible :: "real \<Rightarrow> annotation \<Rightarrow> bool" where
  "isVisible t a \<longleftrightarrow>
     \<not> overflows (timestamp a - t) \<and> \<bar>roundNearest (timestamp a - t)\<bar> < roundNearest 0.1"

definition visibleAnnotations :: "real \<Rightarrow> annotation list \<Rightarrow> annotation list" where
  "visibleAnnotations t anns = filter (isVisible t) anns"

text \<open>
  The callback of \<^verbatim>\<open>annotations.find\<close> in eraser mode. \<^verbatim>\<open>const [point] = annotation.points\<close>
  binds undefined on an empty array, and reading \<^verbatim>\<open>point.x\<close> then throws.
\<close>

definition isClicked :: "point \<Rightarrow> annotation \<Rightarrow> error + bool" where
  "isClicked loc a =
     (case ann_type a of
        Text \<Rightarrow>
          (case points a of
             [] \<Rightarrow> Inl TypeError
           | point # _ \<Rightarrow>
               Inr (sqrt ((px point - px loc)\<^sup>2 + ((py point - 20) - py loc)\<^sup>2) < 30))
      | Line \<Rightarrow>
          Inr (list_ex (\<lambda>point. sqrt ((px point - px loc)\<^sup>2 + (py point - py loc)\<^sup>2) < 10)
                 (points a))
      | Circle \<Rightarrow>
          (case points a of
             [] \<Rightarrow> Inl TypeError
           | center # _ \<Rightarrow>
               Inr (sqrt ((px center - px loc)\<^sup>2 + (py center - py loc)\<^sup>2) < 10)))"

text \<open>\<^verbatim>\<open>Array.prototype.find\<close>: the first element the callback accepts; an exception of
  the callback propagates.\<close>

fun findClicked :: "point \<Rightarrow> annotation list \<Rightarrow> error + annotation option" where
  "findClicked loc [] = Inr None"
| "findClicked loc (a # rest) =
     (case isClicked loc a of
        Inl e \<Rightarrow> Inl e
      | Inr True \<Rightarrow> Inr (Some a)
      | Inr False \<Rightarrow> findClicked loc rest)"

text \<open>
  Each handler reads the props and the local state of the last render and returns the
  new local state with the callbacks it invoked, in order. The handlers are rebuilt on
  every render, so each one sees the state the previous event left.
\<close>

definition onPanResponderGrant :: "screen \<Rightarrow> point \<Rightarrow> error + (drawing option \<times> call list)" where
  "onPanResponderGrant s loc =
     (if \<not> isDrawingMode s \<and> \<not> isTextMode s \<and> \<not> isEraserMode s then Inr (currentDrawing s, [])
      else if isTextMode s then Inr (currentDrawing s, [AddTextAnnotation loc])
      else if isEraserMode s then
        (case findClicked loc (annotations s) of
           Inl e \<Rightarrow> Inl e
         | Inr None \<Rightarrow> Inr (currentDrawing s, [])
         | Inr (Some clickedAnnotation) \<Rightarrow>
             Inr (currentDrawing s, [RemoveAnnotation (ann_id clickedAnnotation)]))
      else Inr (Some \<lparr>d_type = DraftLine, d_points = [loc]\<rparr>, []))"

definition onPanResponderMove :: "screen \<Rightarrow> point \<Rightarrow> drawing option" where
  "onPanResponderMove s loc =
     (case currentDrawing s of
        None \<Rightarrow> None
      | Some d \<Rightarrow>
          if \<not> isDrawingMode s then Some d
          else Some (d\<lparr>d_points := d_points d @ [loc]\<rparr>))"

definition onPanResponderRelease :: "screen \<Rightarrow> nat \<Rightarrow> drawing option \<times> call list" where
  "onPanResponderRelease s now =
     (case currentDrawing s of
        None \<Rightarrow> (None, [])
      | Some d \<Rightarrow>
          if \<not> isDrawingMode s then (Some d, [])
          else (None,
                [AddAnnotation \<lparr>ann_id = toString now, ann_type = shape_of (d_type d),
                   points = d_points d, timestamp = currentTime s, ann_text = None\<rparr>]))"

text \<open>
  \<^verbatim>\<open>renderAnnotation\<close>, as the shapes it draws. A line maps every point but the first to
  the segment from its predecessor; a circle and a non-empty text read their first point.
\<close>

datatype primitive = Segment point point | Ring point | Glyphs point jsstring

definition renderAnnotation :: "annotation \<Rightarrow> error + primitive list" where
  "renderAnnotation a =
     (case ann_type a of
        Line \<Rightarrow> Inr (map (\<lambda>(prevPoint, point). Segment prevPoint point)
                      (zip (points a) (tl (points a))))
      | Circle \<Rightarrow>
          (case points a of [] \<Rightarrow> Inl TypeError | center # _ \<Rightarrow> Inr [Ring center])
      | Text \<Rightarrow>
          (case ann_text a of
             None \<Rightarrow> Inr []
           | Some str \<Rightarrow>
               if str = [] then Inr []
               else case points a of
                      [] \<Rightarrow> Inl TypeError
                    | position # _ \<Rightarrow> Inr [Glyphs position str]))"

section \<open>The host: \<^verbatim>\<open>Analysis\<close>\<close>

definition handleAddAnnotation :: "annotation \<Rightarrow> playback \<Rightarrow> screen \<Rightarrow> screen" where
  "handleAddAnnotation a status s =
     (case status of
        Rejects \<Rightarrow> s\<lparr>console := console s @ [''Error getting video status:'']\<rparr>
      | _ \<Rightarrow> s\<lparr>annotations := annotations s @ [a\<lparr>timestamp := positionSeconds status\<rparr>]\<rparr>)"

definition handleAddTextAnnotation :: "point \<Rightarrow> screen \<Rightarrow> screen" where
  "handleAddTextAnnotation position s = s\<lparr>textPosition := Some position, showTextInput := True\<rparr>"

definition handleRemoveAnnotation :: "string \<Rightarrow> screen \<Rightarrow> screen" where
  "handleRemoveAnnotation annotationId s =
     s\<lparr>annotations := filter (\<lambda>a. ann_id a \<noteq> annotationId) (annotations s)\<rparr>"

text \<open>
  \<^verbatim>\<open>String.prototype.trim\<close> strips white space and line terminators from both ends:
  TAB, LF, VT, FF, CR, SP, NBSP, U+1680, U+2000 to U+200A, U+2028, U+2029, U+202F, U+205F,
  U+3000 and U+FEFF.
\<close>

definition isWhiteSpace :: "16 word \<Rightarrow> bool" where
  "isWhiteSpace c \<longleftrightarrow>
     c \<in> {0x0009, 0x000A, 0x000B, 0x000C, 0x000D, 0x0020, 0x00A0, 0x1680, 0x2028, 0x2029,
          0x202F, 0x205F, 0x3000, 0xFEFF}
     \<or> (0x2000 \<le> c \<and> c \<le> 0x200A)"

definition trim :: "jsstring \<Rightarrow> jsstring" where
  "trim str = rev (dropWhile isWhiteSpace (rev (dropWhile isWhiteSpace str)))"

definition handleTextSubmit :: "nat \<Rightarrow> playback \<Rightarrow> screen \<Rightarrow> screen" where
  "handleTextSubmit now status s =
     (case textPosition s of
        None \<Rightarrow> s
      | Some position \<Rightarrow>
          if trim (textAnnotation s) = [] then s
          else
            (case status of
               Rejects \<Rightarrow> s\<lparr>console := console s @ [''Error adding text annotation:'']\<rparr>
             | _ \<Rightarrow>
                 s\<lparr>annotations := annotations s @
                      [\<lparr>ann_id = toString now, ann_type = Text, points = [position],
                        timestamp = positionSeconds status,
                        ann_text = Some (trim (textAnnotation s))\<rparr>],
                    textAnnotation := [],
                    textPosition := None,
                    showTextInput := False\<rparr>))"

text \<open>The Cancel button and \<^verbatim>\<open>onRequestClose\<close> of the text prompt.\<close>

definition cancelTextInput :: "screen \<Rightarrow> screen" where
  "cancelTextInput s = s\<lparr>showTextInput := False, textPosition := None, textAnnotation := []\<rparr>"

text \<open>What \<^verbatim>\<open>ImagePicker.launchImageLibraryAsync\<close> can give.\<close>

datatype picked = PickerRejects | Canceled | Asset string

definition selectVideo :: "bool \<Rightarrow> picked \<Rightarrow> screen \<Rightarrow> screen" where
  "selectVideo isSecondary result s =
     (case result of
        PickerRejects \<Rightarrow> s\<lparr>console := console s @ [''Error selecting video:'']\<rparr>
      | Canceled \<Rightarrow> s
      | Asset uri \<Rightarrow>
          if isSecondary then s\<lparr>secondaryVideoUri := Some uri\<rparr>
          else s\<lparr>primaryVideoUri := Some uri,
                 annotations := [],
                 currentTime := 0,
                 isDrawingMode := False,
                 isTextMode := False,
                 isEraserMode := False,
                 showTextInput := False,
                 textPosition := None,
                 textAnnotation := []\<rparr>)"

text \<open>
  The three tool buttons of the toolbar; each is \<^verbatim>\<open>disabled={!primaryVideoUri}\<close>, and
  a null or empty uri is falsy.
\<close>

datatype tool = Pencil | FormatText | Eraser

definition noVideo :: "screen \<Rightarrow> bool" where
  "noVideo s \<longleftrightarrow> primaryVideoUri s = None \<or> primaryVideoUri s = Some []"

definition onPress :: "tool \<Rightarrow> screen \<Rightarrow> screen" where
  "onPress t s =
     (if noVideo s then s
      else case t of
        Pencil \<Rightarrow>
          s\<lparr>isDrawingMode := \<not> isDrawingMode s, isTextMode := False, isEraserMode := False\<rparr>
      | FormatText \<Rightarrow>
          s\<lparr>isTextMode := \<not> isTextMode s, isDrawingMode := False, isEraserMode := False\<rparr>
      | Eraser \<Rightarrow>
          s\<lparr>isEraserMode := \<not> isEraserMode s, isDrawingMode := False, isTextMode := False\<rparr>)"

text \<open>\<^verbatim>\<open>handlePlaybackStatusUpdate\<close>, as far as the overlay reads it.\<close>

definition handlePlaybackStatusUpdate :: "playback \<Rightarrow> screen \<Rightarrow> screen" where
  "handlePlaybackStatusUpdate status s =
     (case status of
        Loaded positionMillis \<Rightarrow> s\<lparr>currentTime := roundNearest (positionMillis / 1000)\<rparr>
      | _ \<Rightarrow> s)"

section \<open>Events\<close>

text \<open>
  What a handler reads from outside the screen when it runs: \<^verbatim>\<open>Date.now()\<close> and the
  answer of \<^verbatim>\<open>getStatusAsync\<close>.
\<close>

record env =
  clock :: nat
  status :: playback

definition invoke :: "env \<Rightarrow> call \<Rightarrow> screen \<Rightarrow> screen" where
  "invoke e c s =
     (case c of
        AddAnnotation a \<Rightarrow> handleAddAnnotation a (status e) s
      | RemoveAnnotation annotationId \<Rightarrow> handleRemoveAnnotation annotationId s
      | AddTextAnnotation position \<Rightarrow> handleAddTextAnnotation position s)"

text \<open>A layer handler's outcome: the host runs the callbacks, the layer stores its state.\<close>

definition deliver :: "env \<Rightarrow> drawing option \<times> call list \<Rightarrow> screen \<Rightarrow> screen" where
  "deliver e r s = (fold (invoke e) (snd r) s)\<lparr>currentDrawing := fst r\<rparr>"

datatype event =
    Grant point
  | Move point
  | Release
  | Press tool
  | ChangeText jsstring
  | Submit
  | Cancel
  | SelectVideo bool picked
  | StatusUpdate playback

fun step :: "env \<Rightarrow> event \<Rightarrow> screen \<Rightarrow> error + screen" where
  "step e (Grant loc) s =
     (case onPanResponderGrant s loc of Inl x \<Rightarrow> Inl x | Inr r \<Rightarrow> Inr (deliver e r s))"
| "step e (Move loc) s = Inr (s\<lparr>currentDrawing := onPanResponderMove s loc\<rparr>)"
| "step e Release s = Inr (deliver e (onPanResponderRelease s (clock e)) s)"
| "step e (Press t) s = Inr (onPress t s)"
| "step e (ChangeText str) s = Inr (s\<lparr>textAnnotation := str\<rparr>)"
| "step e Submit s = Inr (handleTextSubmit (clock e) (status e) s)"
| "step e Cancel s = Inr (cancelTextInput s)"
| "step e (SelectVideo isSecondary result) s = Inr (selectVideo isSecondary result s)"
| "step e (StatusUpdate st) s = Inr (handlePlaybackStatusUpdate st s)"

fun run :: "(env \<times> event) list \<Rightarrow> screen \<Rightarrow> error + screen" where
  "run [] s = Inr s"
| "run ((e, ev) # rest) s =
     (case step e ev s of Inl x \<Rightarrow> Inl x | Inr s' \<Rightarrow> run rest s')"

text \<open>The mode the layer acts in, in the order \<^verbatim>\<open>onPanResponderGrant\<close> tests the flags.\<close>

datatype mode = Draw | TextPlacement | Erase | Idle

definition mode :: "screen \<Rightarrow> mode" where
  "mode s =
     (if \<not> isDrawingMode s \<and> \<not> isTextMode s \<and> \<not> isEraserMode s then Idle
      else if isTextMode s then TextPlacement
      else if isEraserMode s then Erase
      else Draw)"

text \<open>The initial values of the \<^verbatim>\<open>useState\<close> cells.\<close>

definition initial :: screen where
  "initial =
     \<lparr>primaryVideoUri = None, secondaryVideoUri = None,
      isDrawingMode = False, isTextMode = False, isEraserMode = False,
      annotations = [], textAnnotation = [], showTextInput = False, textPosition = None,
      currentTime = 0, console = [], currentDrawing = None\<rparr>"


section \<open>The revision of the layer that drags text labels\<close>

text \<open>
  \<^verbatim>\<open>.history/components/VideoAnnotationLayer_20250509113500.tsx\<close> adds the props
  \<^verbatim>\<open>isZoomMode\<close>, \<^verbatim>\<open>scale\<close> and \<^verbatim>\<open>onScaleChange\<close> and the local state below. Its
  handlers that read or write that state follow; the suffix \<open>_drag\<close> tells them from
  the current ones. No screen passes the three props, and every screen lets touches reach
  the layer only while a mode is active: it wraps the layer in a view with
  \<^verbatim>\<open>pointerEvents: 'none'\<close> otherwise, or mounts it in drawing mode only.
\<close>

record dragging =
  draggedAnnotation :: "string option"
  dragOffset :: point
  zoomStart :: "real option"

record zoom =
  isZoomMode :: bool
  scale :: real

text \<open>
  The callbacks of the move handler. \<open>OnAddAnnotation None\<close>: the handler spreads the
  result of a search that found nothing, \<^verbatim>\<open>{ ...undefined }\<close>, and hands
  \<^verbatim>\<open>onAddAnnotation\<close> an object with no fields.
\<close>

datatype drag_call = OnScaleChange real | OnAddAnnotation "annotation option"

text \<open>The callback of the search for a label to drag; \<^verbatim>\<open>a.points[0]\<close> is undefined on
  an empty array.\<close>

fun findDragged :: "point \<Rightarrow> annotation list \<Rightarrow> error + annotation option" where
  "findDragged loc [] = Inr None"
| "findDragged loc (a # rest) =
     (case points a of
        [] \<Rightarrow> Inl TypeError
      | point # _ \<Rightarrow>
          if sqrt ((px point - px loc)\<^sup>2 + (py point - py loc)\<^sup>2) < 30 then Inr (Some a)
          else findDragged loc rest)"

definition onStartShouldSetPanResponder_drag ::
    "zoom \<Rightarrow> screen \<Rightarrow> dragging \<Rightarrow> point \<Rightarrow> error + (bool \<times> dragging)" where
  "onStartShouldSetPanResponder_drag z s g loc =
     (if isZoomMode z then Inr (True, g\<lparr>zoomStart := Some (scale z)\<rparr>)
      else if isEraserMode s \<or> isTextMode s \<or> isDrawingMode s then Inr (True, g)
      else
        case findDragged loc
               (filter (\<lambda>a. isVisible (currentTime s) a \<and> ann_type a = Text) (annotations s)) of
          Inl x \<Rightarrow> Inl x
        | Inr None \<Rightarrow> Inr (False, g)
        | Inr (Some label) \<Rightarrow>
            (case points label of
               [] \<Rightarrow> Inl TypeError
             | point # _ \<Rightarrow>
                 Inr (True,
                      g\<lparr>draggedAnnotation := Some (ann_id label),
                        dragOffset := \<lparr>px = px loc - px point, py = py loc - py point\<rparr>\<rparr>)))"

text \<open>The argument after the position is \<^verbatim>\<open>gestureState.dx\<close>. An empty string is
  falsy, so an empty \<^verbatim>\<open>draggedAnnotation\<close> drags nothing.\<close>

definition onPanResponderMove_drag ::
    "zoom \<Rightarrow> screen \<Rightarrow> dragging \<Rightarrow> point \<Rightarrow> real \<Rightarrow> drawing option \<times> drag_call list" where
  "onPanResponderMove_drag z s g loc dx =
     (case (if isZoomMode z then zoomStart g else None) of
        Some start \<Rightarrow>
          (currentDrawing s, [OnScaleChange (min (max (start * (1 + dx / 200)) 0.5) 3)])
      | None \<Rightarrow>
          (case (if isDrawingMode s then currentDrawing s else None) of
             Some d \<Rightarrow> (Some (d\<lparr>d_points := d_points d @ [loc]\<rparr>), [])
           | None \<Rightarrow>
               (case draggedAnnotation g of
                  None \<Rightarrow> (currentDrawing s, [])
                | Some dragged \<Rightarrow>
                    if dragged = [] then (currentDrawing s, [])
                    else
                      let newAnnotations =
                            map (\<lambda>annotation.
                                   if ann_id annotation = dragged
                                   then annotation\<lparr>points :=
                                          [\<lparr>px = px loc - px (dragOffset g),
                                            py = py loc - py (dragOffset g)\<rparr>]\<rparr>
                                   else annotation)
                              (annotations s)
                      in (currentDrawing s,
                          [OnAddAnnotation (find (\<lambda>a. ann_id a = dragged) newAnnotations)]))))"

definition onPanResponderRelease_drag ::
    "zoom \<Rightarrow> screen \<Rightarrow> dragging \<Rightarrow> nat \<Rightarrow> (drawing option \<times> call list) \<times> dragging" where
  "onPanResponderRelease_drag z s g now =
     (if isZoomMode z then ((currentDrawing s, []), g\<lparr>zoomStart := None\<rparr>)
      else
        ((case currentDrawing s of
            None \<Rightarrow> (None, [])
          | Some d \<Rightarrow>
              if \<not> isDrawingMode s then (Some d, [])
              else (None,
                    [AddAnnotation \<lparr>ann_id = toString now, ann_type = shape_of (d_type d),
                       points = d_points d, timestamp = currentTime s, ann_text = None\<rparr>])),
         g\<lparr>draggedAnnotation := None, dragOffset := \<lparr>px = 0, py = 0\<rparr>\<rparr>))"

section \<open>The specification's wording of hit-testing\<close>






section \<open>Traces and example states\<close>



definition pt :: "real \<Rightarrow> real \<Rightarrow> point" where
  "pt a b = \<lparr>px = a, py = b\<rparr>"

definition reading :: "nat \<Rightarrow> playback \<Rightarrow> env" where
  "reading now st = \<lparr>clock = now, status = st\<rparr>"

definition videoLoaded :: screen where
  "videoLoaded = selectVideo False (Asset ''clip.mp4'') initial"

definition drawScreen :: screen where
  "drawScreen = onPress Pencil videoLoaded"

definition penDown :: screen where
  "penDown = drawScreen\<lparr>currentDrawing := Some \<lparr>d_type = DraftLine, d_points = [pt 10 10]\<rparr>\<rparr>"

definition eraseScreen :: "annotation list \<Rightarrow> real \<Rightarrow> screen" where
  "eraseScreen anns t = (onPress Eraser videoLoaded)\<lparr>annotations := anns, currentTime := t\<rparr>"

definition promptOpen :: "jsstring \<Rightarrow> screen" where
  "promptOpen str =
     (handleAddTextAnnotation (pt 50 50) (onPress FormatText videoLoaded))\<lparr>textAnnotation := str\<rparr>"

definition pointAndText :: "annotation list" where
  "pointAndText =
     [\<lparr>ann_id = ''1'', ann_type = Circle, points = [pt 5 5], timestamp = 1, ann_text = None\<rparr>,
      \<lparr>ann_id = ''2'', ann_type = Text, points = [pt 5 5], timestamp = 1,
        ann_text = Some (utf16 ''elbow'')\<rparr>]"

definition labelAt100 :: annotation where
  "labelAt100 = \<lparr>ann_id = ''7'', ann_type = Text, points = [pt 100 100], timestamp = 1,
                 ann_text = Some (utf16 ''elbow'')\<rparr>"

definition labelAt50 :: annotation where
  "labelAt50 = \<lparr>ann_id = ''7'', ann_type = Text, points = [pt 50 50], timestamp = 2,
                ann_text = Some (utf16 ''elbow'')\<rparr>"


section \<open>Auxiliary facts\<close>

lemmas eval_defs = onPanResponderGrant_def onPanResponderMove_def
  onPanResponderRelease_def deliver_def invoke_def handleAddAnnotation_def
  handleAddTextAnnotation_def handleRemoveAnnotation_def handleTextSubmit_def cancelTextInput_def
  selectVideo_def onPress_def noVideo_def handlePlaybackStatusUpdate_def initial_def
  videoLoaded_def drawScreen_def reading_def pt_def mode_def


lemma sqrt_less_iff: "0 \<le> r \<Longrightarrow> sqrt x < r \<longleftrightarrow> x < r\<^sup>2"
  by (metis real_sqrt_less_iff real_sqrt_abs abs_of_nonneg)

text \<open>Rounding: the rounded integer is within a half of the real, and ties go to even.\<close>

lemma roundEven_bounds: "x - 1 / 2 \<le> of_int (roundEven x) \<and> of_int (roundEven x) \<le> x + 1 / 2"
  unfolding roundEven_def Let_def by (auto; linarith)

lemma roundEven_nonneg: "0 \<le> x \<Longrightarrow> 0 \<le> roundEven x"
  unfolding roundEven_def Let_def by auto

lemma roundEven_le_odd:
  assumes "odd n"
  shows "roundEven x \<le> n \<longleftrightarrow> x < of_int n + 1 / 2"
proof -
  define f where "f = \<lfloor>x\<rfloor>"
  define r where "r = x - of_int f"
  have x: "x = of_int f + r" by (simp add: r_def)
  have r: "0 \<le> r" "r < 1" unfolding r_def f_def by linarith+
  consider "r < 1 / 2" | "1 / 2 < r" | "r = 1 / 2" by linarith
  then show ?thesis
  proof cases
    case 1
    then have "roundEven x = f" by (simp add: roundEven_def Let_def f_def r_def)
    moreover have "f \<le> n \<longleftrightarrow> of_int f + r < of_int n + 1 / 2"
      using 1 r by linarith
    ultimately show ?thesis using x by simp
  next
    case 2
    then have "roundEven x = f + 1" by (simp add: roundEven_def Let_def f_def r_def)
    moreover have "f + 1 \<le> n \<longleftrightarrow> of_int f + r < of_int n + 1 / 2"
      using 2 r by linarith
    ultimately show ?thesis using x by simp
  next
    case 3
    have ne: "f \<noteq> n \<or> odd f" using assms by auto
    show ?thesis
    proof (cases "even f")
      case True
      then have "roundEven x = f" using 3 by (simp add: roundEven_def Let_def f_def r_def)
      moreover have "f \<noteq> n" using True assms by auto
      then have "f \<le> n \<longleftrightarrow> of_int f + r < of_int n + 1 / 2" using 3 by linarith
      ultimately show ?thesis using x by simp
    next
      case False
      then have "roundEven x = f + 1" using 3 by (simp add: roundEven_def Let_def f_def r_def)
      moreover have "f + 1 \<le> n \<longleftrightarrow> of_int f + r < of_int n + 1 / 2" using 3 by linarith
      ultimately show ?thesis using x by simp
    qed
  qed
qed

text \<open>normUp: doubling until the mantissa has 53 bits or the exponent is the least one.\<close>

lemma normUp_steps:
  "0 \<le> m \<Longrightarrow> 2 ^ 52 \<le> m * 2 ^ n \<Longrightarrow> m * 2 ^ n < 2 ^ 53 \<Longrightarrow> - 1074 \<le> e - int n \<Longrightarrow>
   normUp m e = (m * 2 ^ n, e - int n)"
proof (induction n arbitrary: m e)
  case 0
  then show ?case by (simp add: normUp.simps [of m e])
next
  case (Suc n)
  have "1 \<le> (2::real) ^ n" by simp
  then have "m * 2 \<le> m * 2 * 2 ^ n" using Suc.prems(1)
    by (metis mult.right_neutral mult_left_mono mult_nonneg_nonneg zero_le_numeral)
  then have small: "m < 2 ^ 52" using Suc.prems(3) by simp
  have "normUp (2 * m) (e - 1) = (2 * m * 2 ^ n, e - 1 - int n)"
    by (rule Suc.IH) (use Suc.prems in \<open>simp_all add: mult.assoc mult.left_commute\<close>)
  then show ?case using small Suc.prems(4)
    by (simp add: normUp.simps [of m e] mult.assoc mult.left_commute)
qed

lemma normUp_spec:
  "0 < m \<Longrightarrow> normUp m e = (m', e') \<Longrightarrow>
   e' \<le> e \<and> m' = m * 2 ^ nat (e - e') \<and> (2 ^ 52 \<le> m' \<or> e' \<le> - 1074)"
proof (induction m e rule: normUp.induct)
  case (1 m e)
  show ?case
  proof (cases "m < 2 ^ 52 \<and> - 1074 < e")
    case True
    then have step: "normUp (2 * m) (e - 1) = (m', e')"
      using "1.prems"(2) by (simp add: normUp.simps [of m e])
    have pos: "0 < 2 * m" using "1.prems"(1) by simp
    note ih = "1.IH" [OF True pos step]
    have n: "nat (e - e') = Suc (nat (e - 1 - e'))" using ih by linarith
    have a: "e' \<le> e" using ih by simp
    have b: "m' = m * 2 ^ nat (e - e')" using ih by (simp add: n)
    have c: "2 ^ 52 \<le> m' \<or> e' \<le> - 1074" using ih by blast
    show ?thesis using a b c by blast
  next
    case False
    then have eq: "m' = m" "e' = e"
      using "1.prems"(2) by (auto simp add: normUp.simps [of m e] split: if_splits)
    have "2 ^ 52 \<le> m \<or> e \<le> - 1074" using False by linarith
    then show ?thesis using eq by simp
  qed
qed

lemma normDown_spec:
  "2 ^ 52 \<le> m \<Longrightarrow> normDown m e = (m', e') \<Longrightarrow>
   e \<le> e' \<and> 2 ^ 52 \<le> m'"
proof (induction m e rule: normDown.induct)
  case (1 m e)
  show ?case
  proof (cases "2 ^ 53 \<le> m \<and> e < 971")
    case True
    then have step: "normDown (m / 2) (e + 1) = (m', e')"
      using "1.prems"(2) by (simp add: normDown.simps [of m e])
    have big: "2 ^ 52 \<le> m / 2" using True by simp
    show ?thesis using "1.IH" [OF True big step] by simp
  next
    case False
    then have "m' = m" "e' = e"
      using "1.prems"(2) by (auto simp add: normDown.simps [of m e] split: if_splits)
    then show ?thesis using "1.prems"(1) by simp
  qed
qed


lemma pow2_nonpos: "e \<le> 0 \<Longrightarrow> pow2 e = 1 / 2 ^ nat (- e)"
  by (cases "e = 0") (simp_all add: pow2_def)

lemma pow2_nonneg: "0 \<le> e \<Longrightarrow> pow2 e = 2 ^ nat e"
  by (simp add: pow2_def)

text \<open>Below \<open>2 ^ 52\<close> the result is the rounded mantissa over a power of two.\<close>

lemma roundNearest_small:
  assumes "0 < y" and "y < 2 ^ 52"
  obtains k :: nat where "roundNearest y = of_int (roundEven (y * 2 ^ k)) / 2 ^ k"
    and "2 ^ 52 \<le> y * 2 ^ k \<or> 1074 \<le> k"
proof -
  obtain m' e' where n: "normUp y 0 = (m', e')" by (cases "normUp y 0")
  note sp = normUp_spec [OF assms(1) n]
  have e': "e' \<le> 0" using sp by blast
  have m': "m' = y * 2 ^ nat (- e')" using sp by simp
  have c: "2 ^ 52 \<le> m' \<or> e' \<le> - 1074" using sp by blast
  have "roundNearest y = of_int (roundEven m') * pow2 e'"
    using assms n by (simp add: roundNearest_def)
  then have "roundNearest y = of_int (roundEven (y * 2 ^ nat (- e'))) / 2 ^ nat (- e')"
    using m' pow2_nonpos [OF e'] by simp
  moreover have "2 ^ 52 \<le> y * 2 ^ nat (- e') \<or> 1074 \<le> nat (- e')"
  proof (cases "e' \<le> - 1074")
    case True
    then have "1074 \<le> nat (- e')" by linarith
    then show ?thesis by blast
  next
    case False
    then have "2 ^ 52 \<le> m'" using c by blast
    then show ?thesis unfolding m' by blast
  qed
  ultimately show ?thesis using that by blast
qed

lemma two_power_ge_64: "6 \<le> k \<Longrightarrow> (64::real) \<le> 2 ^ k"
  using power_increasing [of 6 k "2::real"] by simp

lemma roundNearest_below_sixteenth:
  assumes "0 < y" and "y < 1 / 16"
  shows "roundNearest y < 7205759403792794 / 2 ^ 56"
proof -
  have "y < 2 ^ 52" using assms(2) by simp
  from roundNearest_small [OF assms(1) this]
  obtain k :: nat where r: "roundNearest y = of_int (roundEven (y * 2 ^ k)) / 2 ^ k"
    and c: "2 ^ 52 \<le> y * 2 ^ k \<or> 1074 \<le> k" by blast
  define P :: real where "P = 2 ^ k"
  define R :: real where "R = of_int (roundEven (y * P))"
  have P0: "0 < P" by (simp add: P_def)
  have yP: "y * P < (1 / 16) * P" using assms(2) P0 by (rule mult_strict_right_mono)
  have P64: "64 \<le> P"
  proof (cases "1074 \<le> k")
    case True
    then show ?thesis unfolding P_def by (intro two_power_ge_64) simp
  next
    case False
    then have "2 ^ 52 \<le> y * P" using c by (simp add: P_def)
    then show ?thesis using yP by simp
  qed
  have "R \<le> y * P + 1 / 2" unfolding R_def using roundEven_bounds [of "y * P"] by simp
  then have "R < (9 / 128) * P" using yP P64 by linarith
  moreover have "(9 / 128) * P \<le> (7205759403792794 / 2 ^ 56) * P"
    using P0 by (intro mult_right_mono) simp_all
  ultimately have "R < (7205759403792794 / 2 ^ 56) * P" by linarith
  then have "R / P < 7205759403792794 / 2 ^ 56" using P0 by (simp add: pos_divide_less_eq)
  then show ?thesis using r by (simp add: R_def P_def)
qed

lemma roundNearest_binade:
  assumes "1 / 16 \<le> y" and "y < 1 / 8"
  shows "roundNearest y = of_int (roundEven (y * 2 ^ 56)) / 2 ^ 56"
proof -
  have y: "0 < y" "y < 2 ^ 52" "y \<noteq> 0" using assms by simp_all
  have "normUp y 0 = (y * 2 ^ 56, 0 - int 56)"
    by (rule normUp_steps) (use assms in simp_all)
  then show ?thesis using y by (simp add: roundNearest_def pow2_def)
qed

lemma roundNearest_above_eighth:
  assumes "1 / 8 \<le> y"
  shows "7205759403792794 / 2 ^ 56 < roundNearest y"
proof (cases "y < 2 ^ 52")
  case True
  have y0: "0 < y" using assms by simp
  from roundNearest_small [OF y0 True]
  obtain k :: nat where r: "roundNearest y = of_int (roundEven (y * 2 ^ k)) / 2 ^ k"
    and c: "2 ^ 52 \<le> y * 2 ^ k \<or> 1074 \<le> k" by blast
  define P :: real where "P = 2 ^ k"
  define R :: real where "R = of_int (roundEven (y * P))"
  have P0: "0 < P" and P1: "1 \<le> P" by (simp_all add: P_def)
  have lower: "y * P - 1 / 2 \<le> R" unfolding R_def using roundEven_bounds [of "y * P"] by simp
  have yP: "(1 / 8) * P \<le> y * P" using assms P0 by (intro mult_right_mono) simp_all
  have up: "(7205759403792794 / 2 ^ 56) * P \<le> (7 / 64) * P"
    using P0 by (intro mult_right_mono) simp_all
  have "(7 / 64) * P < R"
  proof (cases "1 \<le> y")
    case True
    then have "1 * P \<le> y * P" using P0 by (intro mult_right_mono) simp_all
    then show ?thesis using lower P1 by linarith
  next
    case False
    then have yP': "y * P < 1 * P" using P0 by (intro mult_strict_right_mono) simp_all
    have "64 \<le> P"
    proof (cases "1074 \<le> k")
      case True
      then show ?thesis unfolding P_def by (intro two_power_ge_64) simp
    next
      case False
      then have "2 ^ 52 \<le> y * P" using c by (simp add: P_def)
      then show ?thesis using yP' by simp
    qed
    then show ?thesis using lower yP by linarith
  qed
  then have "(7205759403792794 / 2 ^ 56) * P < R" using up by linarith
  then have "7205759403792794 / 2 ^ 56 < R / P" using P0 by (simp add: pos_less_divide_eq)
  then show ?thesis using r by (simp add: R_def P_def)
next
  case False
  then have big: "2 ^ 52 \<le> y" by simp
  obtain m' e' where n: "normDown y 0 = (m', e')" by (cases "normDown y 0")
  from normDown_spec [OF big n] have e': "0 \<le> e'" and m': "2 ^ 52 \<le> m'" by simp_all
  have "(1::real) \<le> of_int (roundEven m')"
  proof -
    have "m' - 1 / 2 \<le> of_int (roundEven m')" using roundEven_bounds [of m'] by simp
    then have "(0::real) < of_int (roundEven m')" using m' by simp
    then have "0 < roundEven m'" by simp
    then have "1 \<le> roundEven m'" by linarith
    then show ?thesis by (simp only: of_int_1_le_iff)
  qed
  moreover have "(1::real) \<le> 2 ^ nat e'" by simp
  ultimately have "(1::real) * 1 \<le> of_int (roundEven m') * 2 ^ nat e'"
    by (intro mult_mono) simp_all
  moreover have "roundNearest y = of_int (roundEven m') * 2 ^ nat e'"
    using big False n pow2_nonneg [OF e'] by (simp add: roundNearest_def)
  ultimately show ?thesis by simp
qed

lemma roundEven_tenth: "roundEven (1 / 10 * 2 ^ 56) = 7205759403792794"
  by (simp add: roundEven_def Let_def)

lemma roundNearest_tenth: "roundNearest 0.1 = 7205759403792794 / 2 ^ 56"
  using roundNearest_binade [of "1 / 10"] roundEven_tenth by simp

lemma roundNearest_pos:
  assumes "0 < y"
  obtains v where "0 \<le> v" and "\<And>x. \<bar>x\<bar> = y \<Longrightarrow> roundNearest x = sgn x * v"
proof (cases "y < 2 ^ 52")
  case True
  obtain m e where n: "normUp y 0 = (m, e)" by (cases "normUp y 0")
  have "0 \<le> m" using normUp_spec [OF assms n] assms by simp
  then have "0 \<le> of_int (roundEven m) * pow2 e"
    using roundEven_nonneg [of m] by (simp add: pow2_def)
  moreover have "roundNearest x = sgn x * (of_int (roundEven m) * pow2 e)" if "\<bar>x\<bar> = y" for x
    using that assms True n by (auto simp add: roundNearest_def)
  ultimately show ?thesis using that by blast
next
  case False
  obtain m e where n: "normDown y 0 = (m, e)" by (cases "normDown y 0")
  have "2 ^ 52 \<le> y" using False by simp
  then have "0 \<le> m" using normDown_spec [OF _ n] by simp
  then have "0 \<le> of_int (roundEven m) * pow2 e"
    using roundEven_nonneg [of m] by (simp add: pow2_def)
  moreover have "roundNearest x = sgn x * (of_int (roundEven m) * pow2 e)" if "\<bar>x\<bar> = y" for x
    using that assms False n by (auto simp add: roundNearest_def)
  ultimately show ?thesis using that by blast
qed

lemma abs_roundNearest: "\<bar>roundNearest x\<bar> = roundNearest \<bar>x\<bar>"
proof (cases "x = 0")
  case True
  then show ?thesis by (simp add: roundNearest_def)
next
  case False
  then have "0 < \<bar>x\<bar>" by simp
  from roundNearest_pos [OF this]
  obtain v where v0: "0 \<le> v" and r: "\<And>z. \<bar>z\<bar> = \<bar>x\<bar> \<Longrightarrow> roundNearest z = sgn z * v"
    by blast
  have "roundNearest x = sgn x * v" by (rule r) simp
  moreover have "roundNearest \<bar>x\<bar> = sgn \<bar>x\<bar> * v" by (rule r) simp
  ultimately show ?thesis using False v0 by (simp add: abs_mult sgn_if)
qed

text \<open>The threshold: the midpoint between the double nearest 0.1 and its predecessor.\<close>

lemma roundNearest_less_tenth:
  assumes "0 \<le> y"
  shows "roundNearest y < roundNearest 0.1 \<longleftrightarrow> y < 14411518807585587 / 2 ^ 57"
proof -
  consider "y = 0" | "0 < y" "y < 1 / 16" | "1 / 16 \<le> y" "y < 1 / 8" | "1 / 8 \<le> y"
    using assms by linarith
  then show ?thesis
  proof cases
    case 1
    then show ?thesis by (simp add: roundNearest_tenth) (simp add: roundNearest_def)
  next
    case 2
    then show ?thesis using roundNearest_below_sixteenth [of y] by (simp add: roundNearest_tenth)
  next
    case 3
    have "roundEven (y * 2 ^ 56) < 7205759403792794 \<longleftrightarrow> roundEven (y * 2 ^ 56) \<le> 7205759403792793"
      by linarith
    also have "\<dots> \<longleftrightarrow> y * 2 ^ 56 < of_int 7205759403792793 + 1 / 2"
      by (rule roundEven_le_odd) simp
    also have "\<dots> \<longleftrightarrow> y < 14411518807585587 / 2 ^ 57" by (simp add: field_simps)
    finally have "roundEven (y * 2 ^ 56) < 7205759403792794 \<longleftrightarrow> y < 14411518807585587 / 2 ^ 57" .
    moreover have "roundNearest y < roundNearest 0.1
        \<longleftrightarrow> roundEven (y * 2 ^ 56) < 7205759403792794"
    proof -
      define D :: real where "D = 2 ^ 56"
      define A :: int where "A = roundEven (y * 2 ^ 56)"
      have D0: "0 < D" by (simp add: D_def)
      have "roundNearest y = of_int A / D"
        unfolding A_def D_def by (rule roundNearest_binade [OF 3])
      moreover have "roundNearest 0.1 = of_int 7205759403792794 / D"
        unfolding D_def by (simp add: roundNearest_tenth)
      ultimately have "roundNearest y < roundNearest 0.1
          \<longleftrightarrow> (of_int A :: real) / D < of_int 7205759403792794 / D" by simp
      also have "\<dots> \<longleftrightarrow> (of_int A :: real) < of_int 7205759403792794"
        using D0 by (simp only: divide_less_cancel) auto
      also have "\<dots> \<longleftrightarrow> A < 7205759403792794" by (simp only: of_int_less_iff)
      finally show ?thesis unfolding A_def .
    qed
    ultimately show ?thesis by simp
  next
    case 4
    then show ?thesis using roundNearest_above_eighth [of y] by (simp add: roundNearest_tenth)
  qed
qed

lemma isVisible_threshold:
  "isVisible t a \<longleftrightarrow> \<bar>timestamp a - t\<bar> < 14411518807585587 / 2 ^ 57"
proof -
  have a: "roundNearest \<bar>timestamp a - t\<bar> < roundNearest 0.1
      \<longleftrightarrow> \<bar>timestamp a - t\<bar> < 14411518807585587 / 2 ^ 57"
    by (rule roundNearest_less_tenth) simp
  have "roundNearest \<bar>timestamp a - t\<bar> < roundNearest 0.1 \<Longrightarrow> \<not> overflows (timestamp a - t)"
    by (simp add: overflows_def abs_roundNearest roundNearest_tenth)
  then show ?thesis using a by (auto simp: isVisible_def abs_roundNearest)
qed

text \<open>The double nearest a positive real below \<open>2 ^ 52\<close>, once its binade is known.\<close>

lemma roundNearest_eval:
  assumes "0 < y" and "2 ^ 52 \<le> y * 2 ^ n" and "y * 2 ^ n < 2 ^ 53" and "n \<le> 1074"
    and "y < 2 ^ 52"
  shows "roundNearest y = of_int (roundEven (y * 2 ^ n)) / 2 ^ n"
proof -
  have "normUp y 0 = (y * 2 ^ n, 0 - int n)"
    by (rule normUp_steps) (use assms in simp_all)
  moreover have "pow2 (- int n) = 1 / 2 ^ n" using pow2_nonpos [of "- int n"] by simp
  ultimately show ?thesis using assms(1,5) by (simp add: roundNearest_def)
qed

lemma positionSeconds_58: "positionSeconds (Loaded 58) = 8358680908399641 / 2 ^ 57"
  using roundNearest_eval [of "58 / 1000" 57] by (simp add: roundEven_def Let_def)

lemma positionSeconds_158: "positionSeconds (Loaded 158) = 5692549928996307 / 2 ^ 55"
  using roundNearest_eval [of "158 / 1000" 55] by (simp add: roundEven_def Let_def)

lemma positionSeconds_200: "positionSeconds (Loaded 200) = 7205759403792794 / 2 ^ 55"
  using roundNearest_eval [of "200 / 1000" 55] by (simp add: roundEven_def Let_def)

lemma positionSeconds_300: "positionSeconds (Loaded 300) = 5404319552844595 / 2 ^ 54"
  using roundNearest_eval [of "300 / 1000" 54] by (simp add: roundEven_def Let_def)

lemma positionSeconds_1000: "positionSeconds (Loaded 1000) = 1"
  using roundNearest_eval [of "1000 / 1000" 52] by (simp add: roundEven_def Let_def)

lemma positionSeconds_1100: "positionSeconds (Loaded 1100) = 4953959590107546 / 2 ^ 52"
  using roundNearest_eval [of "1100 / 1000" 52] by (simp add: roundEven_def Let_def)

lemma positionSeconds_2000: "positionSeconds (Loaded 2000) = 2"
  using roundNearest_eval [of "2000 / 1000" 51] by (simp add: roundEven_def Let_def)

lemma positionSeconds_5000: "positionSeconds (Loaded 5000) = 5"
  using roundNearest_eval [of "5000 / 1000" 50] by (simp add: roundEven_def Let_def)

lemma mode_Draw_iff: "mode s = Draw \<longleftrightarrow> isDrawingMode s \<and> \<not> isTextMode s \<and> \<not> isEraserMode s"
  by (auto simp: mode_def)

lemma run_append:
  "run (xs @ ys) s = (case run xs s of Inl x \<Rightarrow> Inl x | Inr s' \<Rightarrow> run ys s')"
  by (induction xs arbitrary: s) (auto split: sum.splits)

text \<open>Moves in drawing mode extend the draft by every position, in order.\<close>

lemma run_moves:
  "isDrawingMode s \<Longrightarrow> currentDrawing s = Some d \<Longrightarrow>
   run (map (\<lambda>(e, p). (e, Move p)) eps) s
     = Inr (s\<lparr>currentDrawing := Some (d\<lparr>d_points := d_points d @ map snd eps\<rparr>)\<rparr>)"
proof (induction eps arbitrary: s d)
  case Nil
  then show ?case by simp
next
  case (Cons ep eps)
  obtain e p where ep: "ep = (e, p)" by (cases ep)
  let ?d1 = "d\<lparr>d_points := d_points d @ [p]\<rparr>"
  let ?s1 = "s\<lparr>currentDrawing := Some ?d1\<rparr>"
  have s1: "step e (Move p) s = Inr ?s1"
    using Cons.prems by (simp add: onPanResponderMove_def)
  have "run (map (\<lambda>(e, p). (e, Move p)) eps) ?s1
        = Inr (?s1\<lparr>currentDrawing := Some (?d1\<lparr>d_points := d_points ?d1 @ map snd eps\<rparr>)\<rparr>)"
    by (rule Cons.IH) (use Cons.prems in simp_all)
  then show ?case using s1 ep by simp
qed

lemma release_draft:
  "isDrawingMode s \<Longrightarrow> currentDrawing s = Some d \<Longrightarrow> status e \<noteq> Rejects \<Longrightarrow>
   step e Release s =
     Inr (s\<lparr>annotations := annotations s @
               [\<lparr>ann_id = toString (clock e), ann_type = shape_of (d_type d), points = d_points d,
                 timestamp = positionSeconds (status e), ann_text = None\<rparr>],
            currentDrawing := None\<rparr>)"
  by (cases "status e")
     (simp_all add: onPanResponderRelease_def deliver_def invoke_def handleAddAnnotation_def)

lemma release_rejects:
  "isDrawingMode s \<Longrightarrow> currentDrawing s = Some d \<Longrightarrow> status e = Rejects \<Longrightarrow>
   step e Release s =
     Inr (s\<lparr>console := console s @ [''Error getting video status:''],
            currentDrawing := None\<rparr>)"
  by (simp add: onPanResponderRelease_def deliver_def invoke_def handleAddAnnotation_def)

lemma grant_draw:
  "mode s = Draw \<Longrightarrow>
   step e (Grant loc) s = Inr (s\<lparr>currentDrawing := Some \<lparr>d_type = DraftLine, d_points = [loc]\<rparr>\<rparr>)"
  by (simp add: mode_Draw_iff onPanResponderGrant_def deliver_def)

text \<open>Only white space trims to the empty string.\<close>

lemma trim_Nil_iff: "trim str = [] \<longleftrightarrow> list_all isWhiteSpace str"
proof -
  have "trim str = [] \<longleftrightarrow> dropWhile isWhiteSpace (rev (dropWhile isWhiteSpace str)) = []"
    by (simp add: trim_def)
  also have "\<dots> \<longleftrightarrow> (\<forall>c \<in> set (dropWhile isWhiteSpace str). isWhiteSpace c)"
    by (simp add: dropWhile_eq_Nil_conv)
  also have "\<dots> \<longleftrightarrow> dropWhile isWhiteSpace str = []"
    by (metis dropWhile_eq_Nil_conv hd_dropWhile hd_in_set all_not_in_conv set_empty)
  also have "\<dots> \<longleftrightarrow> list_all isWhiteSpace str"
    by (simp add: dropWhile_eq_Nil_conv list_all_iff)
  finally show ?thesis .
qed












text \<open>The example states are reached from the initial screen.\<close>

lemma penDown_reached:
  "run [(e0, SelectVideo False (Asset ''clip.mp4'')), (e1, Press Pencil), (e2, Grant (pt 10 10))]
     initial = Inr penDown"
  by (simp add: penDown_def eval_defs)

lemma promptOpen_reached:
  "run [(e0, SelectVideo False (Asset ''clip.mp4'')), (e1, Press FormatText),
        (e2, Grant (pt 50 50)), (e3, ChangeText str)] initial = Inr (promptOpen str)"
  by (simp add: promptOpen_def eval_defs)

text \<open>
  The dragging revision under its hosts: with a mode active the start of a touch skips
  the search for a label, so no drag target is set; with no drag target and no zoom the
  move handler is the current one; the end of a touch clears the drag target.
\<close>

lemma drag_not_started_under_a_mode:
  "\<not> isZoomMode z \<Longrightarrow> isEraserMode s \<or> isTextMode s \<or> isDrawingMode s \<Longrightarrow>
   onStartShouldSetPanResponder_drag z s g loc = Inr (True, g)"
  by (simp add: onStartShouldSetPanResponder_drag_def)

lemma move_without_drag_target:
  "\<not> isZoomMode z \<Longrightarrow> draggedAnnotation g = None \<Longrightarrow>
   onPanResponderMove_drag z s g loc dx = (onPanResponderMove s loc, [])"
  by (cases "currentDrawing s")
     (simp_all add: onPanResponderMove_drag_def onPanResponderMove_def)

lemma release_clears_drag_target:
  "\<not> isZoomMode z \<Longrightarrow> draggedAnnotation (snd (onPanResponderRelease_drag z s g now)) = None"
  by (simp add: onPanResponderRelease_drag_def)

section \<open>Visibility\<close>

text \<open>
  C1, as the code has it. For every annotation held and every playback time, the
  annotation is among the visible ones exactly when the two doubles differ, as real
  numbers, by less than 14411518807585587 / 2 ^ 57: the midpoint between the double
  nearest 0.1 and the double before it, about 1.4e-18 below one tenth. A difference equal
  to that bound excludes the annotation, and the window is the same on both sides of the
  timestamp.
\<close>

theorem visibleAnnotations_iff:
  "(a \<in> set (visibleAnnotations t anns)
      \<longleftrightarrow> a \<in> set anns \<and> \<bar>timestamp a - t\<bar> < 14411518807585587 / 2 ^ 57)
   \<and> (\<bar>timestamp a - t\<bar> = 14411518807585587 / 2 ^ 57 \<longrightarrow> a \<notin> set (visibleAnnotations t anns))
   \<and> (isVisible (timestamp a + d) a \<longleftrightarrow> isVisible (timestamp a - d) a)"
  by (auto simp: visibleAnnotations_def isVisible_threshold)

text \<open>
  A mark made at 300 ms is drawn at 200 ms, the two quotients by 1000 being less than the
  bound apart; a mark made at 1100 ms is not drawn at 1000 ms.
\<close>

theorem visibleAnnotations_iff_witness:
  "labelAt100\<lparr>timestamp := positionSeconds (Loaded 300)\<rparr>
     \<in> set (visibleAnnotations (positionSeconds (Loaded 200))
              [labelAt100\<lparr>timestamp := positionSeconds (Loaded 300)\<rparr>])
   \<and> labelAt100\<lparr>timestamp := positionSeconds (Loaded 1100)\<rparr>
     \<notin> set (visibleAnnotations (positionSeconds (Loaded 1000))
              [labelAt100\<lparr>timestamp := positionSeconds (Loaded 1100)\<rparr>])"
  using visibleAnnotations_iff [of "labelAt100\<lparr>timestamp := positionSeconds (Loaded 300)\<rparr>"
      "positionSeconds (Loaded 200)" "[labelAt100\<lparr>timestamp := positionSeconds (Loaded 300)\<rparr>]" 0]
    visibleAnnotations_iff [of "labelAt100\<lparr>timestamp := positionSeconds (Loaded 1100)\<rparr>"
      "positionSeconds (Loaded 1000)" "[labelAt100\<lparr>timestamp := positionSeconds (Loaded 1100)\<rparr>]" 0]
  by (simp add: positionSeconds_200 positionSeconds_300 positionSeconds_1000
      positionSeconds_1100 del: positionSeconds.simps)

text \<open>
  A mark made at 158 ms and looked for at 58 ms: the two times differ by less than one
  tenth, and the mark is not drawn.
\<close>

theorem visibleAnnotations_counterexample:
  "\<bar>timestamp (labelAt100\<lparr>timestamp := positionSeconds (Loaded 158)\<rparr>)
      - positionSeconds (Loaded 58)\<bar> < 1 / 10
   \<and> visibleAnnotations (positionSeconds (Loaded 58))
       [labelAt100\<lparr>timestamp := positionSeconds (Loaded 158)\<rparr>] = []"
  by (simp add: visibleAnnotations_def isVisible_threshold positionSeconds_58
      positionSeconds_158 del: positionSeconds.simps)

section \<open>Drawing gestures\<close>

text \<open>
  C2, as the code has it. In drawing mode a tap, that is a touch that starts and ends
  with no move between, is not dropped: unless the status query of the player fails, it
  appends exactly one annotation, of kind line, whose only point is the tap position. No
  point marker (kind circle) is made.
\<close>

theorem tap_in_draw_mode:
  assumes "mode s = Draw" and "status e' \<noteq> Rejects"
  shows "run [(e, Grant loc), (e', Release)] s =
         Inr (s\<lparr>annotations := annotations s @
                   [\<lparr>ann_id = toString (clock e'), ann_type = Line, points = [loc],
                     timestamp = positionSeconds (status e'), ann_text = None\<rparr>],
                currentDrawing := None\<rparr>)"
proof -
  let ?d = "\<lparr>d_type = DraftLine, d_points = [loc]\<rparr>"
  let ?s1 = "s\<lparr>currentDrawing := Some ?d\<rparr>"
  have g: "step e (Grant loc) s = Inr ?s1" using assms(1) by (rule grant_draw)
  have "isDrawingMode ?s1" using assms(1) by (simp add: mode_Draw_iff)
  then have "step e' Release ?s1 = Inr (?s1\<lparr>annotations := annotations ?s1 @
               [\<lparr>ann_id = toString (clock e'), ann_type = shape_of (d_type ?d),
                 points = d_points ?d, timestamp = positionSeconds (status e'),
                 ann_text = None\<rparr>],
            currentDrawing := None\<rparr>)"
    using assms(2) by (intro release_draft) simp_all
  with g show ?thesis by simp
qed

theorem tap_in_draw_mode_witness:
  "run [(reading 1000 (Loaded 5000), Grant (pt 10 10)), (reading 1000 (Loaded 5000), Release)]
     drawScreen =
   Inr (drawScreen\<lparr>annotations :=
          [\<lparr>ann_id = toString 1000, ann_type = Line, points = [pt 10 10],
            timestamp = 5, ann_text = None\<rparr>]\<rparr>)"
proof -
  have m: "mode drawScreen = Draw" by (simp add: eval_defs)
  have r: "status (reading 1000 (Loaded 5000)) \<noteq> Rejects" by (simp add: reading_def)
  show ?thesis
    using tap_in_draw_mode [OF m r, of "reading 1000 (Loaded 5000)" "pt 10 10"]
    by (simp add: eval_defs positionSeconds_5000 del: positionSeconds.simps)
qed

theorem tap_counterexample:
  "map_sum id (\<lambda>s. map ann_type (annotations s))
     (run [(reading 1000 (Loaded 5000), Grant (pt 10 10)),
           (reading 1000 (Loaded 5000), Release)] drawScreen)
   = Inr [Line]"
  by (simp add: eval_defs)

text \<open>The one-point line a tap leaves is stored but draws no segment.\<close>

lemma tap_renders_nothing:
  "renderAnnotation \<lparr>ann_id = i, ann_type = Line, points = [loc], timestamp = t,
     ann_text = None\<rparr> = Inr []"
  by (simp add: renderAnnotation_def)

text \<open>
  C6, as the code has it. In drawing mode a touch that starts, moves n times and ends
  makes one line whose points are the start position followed by every move position in
  arrival order, 1 + n points in all, and clears the draft. Unless the status query of
  the player fails, the host appends that line; when the query fails the host logs the
  error and stores nothing.
\<close>

theorem drag_in_draw_mode:
  assumes "mode s = Draw"
  shows "(status e' \<noteq> Rejects \<longrightarrow>
          run ((e, Grant p0) # map (\<lambda>(e, p). (e, Move p)) eps @ [(e', Release)]) s =
          Inr (s\<lparr>annotations := annotations s @
                    [\<lparr>ann_id = toString (clock e'), ann_type = Line, points = p0 # map snd eps,
                      timestamp = positionSeconds (status e'), ann_text = None\<rparr>],
                 currentDrawing := None\<rparr>))
         \<and> (status e' = Rejects \<longrightarrow>
          run ((e, Grant p0) # map (\<lambda>(e, p). (e, Move p)) eps @ [(e', Release)]) s =
          Inr (s\<lparr>console := console s @ [''Error getting video status:''],
                 currentDrawing := None\<rparr>))
         \<and> length (p0 # map snd eps) = 1 + length eps"
proof -
  let ?d0 = "\<lparr>d_type = DraftLine, d_points = [p0]\<rparr>"
  let ?s1 = "s\<lparr>currentDrawing := Some ?d0\<rparr>"
  let ?d1 = "?d0\<lparr>d_points := d_points ?d0 @ map snd eps\<rparr>"
  let ?s2 = "?s1\<lparr>currentDrawing := Some ?d1\<rparr>"
  have dm: "isDrawingMode s" using assms(1) by (simp add: mode_Draw_iff)
  have g: "step e (Grant p0) s = Inr ?s1" using assms(1) by (rule grant_draw)
  have m: "run (map (\<lambda>(e, p). (e, Move p)) eps) ?s1 = Inr ?s2"
    by (rule run_moves) (use dm in simp_all)
  have gm: "run ((e, Grant p0) # map (\<lambda>(e, p). (e, Move p)) eps @ [(e', Release)]) s
      = step e' Release ?s2"
    using g m by (simp add: run_append split: sum.splits)
  have r: "status e' \<noteq> Rejects \<Longrightarrow> step e' Release ?s2 = Inr (?s2\<lparr>annotations := annotations ?s2 @
               [\<lparr>ann_id = toString (clock e'), ann_type = shape_of (d_type ?d1),
                 points = d_points ?d1, timestamp = positionSeconds (status e'),
                 ann_text = None\<rparr>],
            currentDrawing := None\<rparr>)"
    using dm by (intro release_draft) simp_all
  have x: "status e' = Rejects \<Longrightarrow> step e' Release ?s2 =
      Inr (?s2\<lparr>console := console ?s2 @ [''Error getting video status:''],
             currentDrawing := None\<rparr>)"
    using dm by (intro release_rejects) simp_all
  show ?thesis using gm r x by simp
qed

theorem drag_in_draw_mode_witness:
  "run [(reading 1000 (Loaded 5000), Grant (pt 10 10)),
        (reading 1000 (Loaded 5000), Move (pt 20 10)),
        (reading 1000 (Loaded 5000), Move (pt 30 10)),
        (reading 1000 (Loaded 5000), Release)] drawScreen =
   Inr (drawScreen\<lparr>annotations :=
          [\<lparr>ann_id = toString 1000, ann_type = Line, points = [pt 10 10, pt 20 10, pt 30 10],
            timestamp = 5, ann_text = None\<rparr>]\<rparr>)"
proof -
  have m: "mode drawScreen = Draw" by (simp add: eval_defs)
  have r: "status (reading 1000 (Loaded 5000)) \<noteq> Rejects" by (simp add: reading_def)
  show ?thesis
    using r drag_in_draw_mode [OF m, of "reading 1000 (Loaded 5000)"
        "reading 1000 (Loaded 5000)" "pt 10 10"
        "[(reading 1000 (Loaded 5000), pt 20 10), (reading 1000 (Loaded 5000), pt 30 10)]"]
    by (simp add: eval_defs positionSeconds_5000 del: positionSeconds.simps)
qed

text \<open>The same drag while the status query of the player fails: nothing is stored.\<close>

theorem drag_in_draw_mode_counterexample:
  "map_sum id (\<lambda>s. (annotations s, currentDrawing s, console s))
     (run [(reading 1000 Rejects, Grant (pt 10 10)),
           (reading 1000 Rejects, Move (pt 20 10)),
           (reading 1000 Rejects, Move (pt 30 10)),
           (reading 1000 Rejects, Release)] drawScreen)
   = Inr ([], None, [''Error getting video status:''])"
  by (simp add: eval_defs)

section \<open>The eraser\<close>




text \<open>
  The eraser searches the whole list, not the visible part: at playback time 60 the text
  of timestamp 1 is not drawn, and a touch where its glyphs would be removes it.
\<close>

lemma eraser_reaches_hidden_annotation:
  "visibleAnnotations 60 [labelAt100] = []
   \<and> onPanResponderGrant (eraseScreen [labelAt100] 60) (pt 100 80)
       = Inr (None, [RemoveAnnotation ''7''])"
  by (simp add: visibleAnnotations_def isVisible_threshold
      labelAt100_def eraseScreen_def isClicked_def sqrt_less_iff eval_defs)

section \<open>Dragging a text label\<close>




section \<open>Mode switches and the draft\<close>

text \<open>
  C5, as the code has it. A tool button changes the three mode flags and nothing else:
  a pending draft and the annotation list are as before, so the draft is not discarded.
  While the drawing flag is off, a move leaves the draft as it is and the end of a touch
  leaves it and asks the host for nothing.
\<close>

theorem onPress_keeps_draft:
  "currentDrawing (onPress t s) = currentDrawing s
   \<and> annotations (onPress t s) = annotations s
   \<and> (\<not> isDrawingMode (onPress t s) \<longrightarrow>
        onPanResponderMove (onPress t s) loc = currentDrawing s
        \<and> onPanResponderRelease (onPress t s) now = (currentDrawing s, []))"
  by (cases t) (auto simp: onPress_def onPanResponderMove_def onPanResponderRelease_def
      split: option.splits)

theorem onPress_keeps_draft_witness:
  "currentDrawing (onPress Eraser penDown) = Some \<lparr>d_type = DraftLine, d_points = [pt 10 10]\<rparr>
   \<and> onPanResponderMove (onPress Eraser penDown) (pt 20 10)
       = Some \<lparr>d_type = DraftLine, d_points = [pt 10 10]\<rparr>
   \<and> onPanResponderRelease (onPress Eraser penDown) 1000
       = (Some \<lparr>d_type = DraftLine, d_points = [pt 10 10]\<rparr>, [])"
proof -
  have off: "\<not> isDrawingMode (onPress Eraser penDown)"
    by (simp add: penDown_def eval_defs)
  show ?thesis
    using off onPress_keeps_draft [of Eraser penDown "pt 20 10" 1000]
    by (simp add: penDown_def)
qed

text \<open>
  A touch starts in drawing mode and gets no end; the eraser button is pressed: the mode is
  erase and the draft is still there.
\<close>

theorem onPress_counterexample:
  "map_sum id (\<lambda>s. (mode s, currentDrawing s))
     (run [(reading 1000 (Loaded 5000), Grant (pt 10 10)),
           (reading 1000 (Loaded 5000), Press Eraser)] drawScreen)
   = Inr (Erase, Some \<lparr>d_type = DraftLine, d_points = [pt 10 10]\<rparr>)"
  by (simp add: eval_defs)

section \<open>A new video\<close>

text \<open>
  C7, as the code has it. Choosing a new primary video empties the annotation list,
  switches every mode flag off, closes and clears the text prompt and sets the playback
  time to 0, whatever the state was. The draft belongs to the layer and is left as it
  was.
\<close>

theorem selectVideo_resets:
  "annotations (selectVideo False (Asset uri) s) = []
   \<and> mode (selectVideo False (Asset uri) s) = Idle
   \<and> \<not> showTextInput (selectVideo False (Asset uri) s)
   \<and> textPosition (selectVideo False (Asset uri) s) = None
   \<and> textAnnotation (selectVideo False (Asset uri) s) = []
   \<and> currentTime (selectVideo False (Asset uri) s) = 0
   \<and> currentDrawing (selectVideo False (Asset uri) s) = currentDrawing s"
  by (simp add: selectVideo_def mode_def)

theorem selectVideo_resets_witness:
  "annotations (eraseScreen pointAndText 1) = pointAndText
   \<and> mode (eraseScreen pointAndText 1) = Erase
   \<and> annotations (selectVideo False (Asset ''other.mp4'') (eraseScreen pointAndText 1)) = []
   \<and> mode (selectVideo False (Asset ''other.mp4'') (eraseScreen pointAndText 1)) = Idle"
  using selectVideo_resets [of "''other.mp4''" "eraseScreen pointAndText 1"]
  by (simp add: eraseScreen_def eval_defs)

theorem selectVideo_counterexample:
  "map_sum id currentDrawing
     (run [(reading 1000 (Loaded 5000), Grant (pt 10 10)),
           (reading 1000 (Loaded 5000), SelectVideo False (Asset ''other.mp4''))] drawScreen)
   = Inr (Some \<lparr>d_type = DraftLine, d_points = [pt 10 10]\<rparr>)"
  by (simp add: eval_defs)

section \<open>Text labels\<close>

text \<open>
  C8, as the code has it. Submitting a text that is empty or all white space creates no
  annotation and raises no error: it changes nothing at all, so the prompt stays open
  with its position and its text, where Cancel closes and clears it. Submitting any
  other text at a placed prompt appends, unless the status query of the player fails,
  exactly one text annotation at the prompted position, whose timestamp is the player's
  position (0 when it is not loaded) and whose text is the trimmed input, and closes and
  clears the prompt; when the query fails it logs the error and creates nothing.
\<close>

theorem handleTextSubmit_text:
  "(list_all isWhiteSpace (textAnnotation s) \<or> textPosition s = None
      \<longrightarrow> handleTextSubmit now st s = s)
   \<and> (\<not> list_all isWhiteSpace (textAnnotation s) \<and> textPosition s = Some position
        \<and> st \<noteq> Rejects \<longrightarrow>
        handleTextSubmit now st s =
          s\<lparr>annotations := annotations s @
               [\<lparr>ann_id = toString now, ann_type = Text, points = [position],
                 timestamp = positionSeconds st, ann_text = Some (trim (textAnnotation s))\<rparr>],
             textAnnotation := [], textPosition := None, showTextInput := False\<rparr>)
   \<and> (\<not> list_all isWhiteSpace (textAnnotation s) \<and> textPosition s = Some position
        \<and> st = Rejects \<longrightarrow>
        handleTextSubmit now st s =
          s\<lparr>console := console s @ [''Error adding text annotation:'']\<rparr>)"
  by (cases st) (auto simp add: handleTextSubmit_def trim_Nil_iff split: option.splits)

theorem handleTextSubmit_text_witness:
  "handleTextSubmit 1000 (Loaded 2000) (promptOpen (utf16 ''   '')) = promptOpen (utf16 ''   '')
   \<and> annotations (handleTextSubmit 1000 (Loaded 2000) (promptOpen (utf16 '' check elbow  ''))) =
       [\<lparr>ann_id = toString 1000, ann_type = Text, points = [pt 50 50],
         timestamp = 2, ann_text = Some (utf16 ''check elbow'')\<rparr>]
   \<and> annotations (handleTextSubmit 1000 Rejects (promptOpen (utf16 '' check elbow  ''))) = []"
proof -
  have blank: "list_all isWhiteSpace (textAnnotation (promptOpen (utf16 ''   '')))"
    by (simp add: promptOpen_def isWhiteSpace_def utf16_def)
  have filled:
    "\<not> list_all isWhiteSpace (textAnnotation (promptOpen (utf16 '' check elbow  '')))"
    by (simp add: promptOpen_def isWhiteSpace_def utf16_def)
  have placed: "textPosition (promptOpen (utf16 '' check elbow  '')) = Some (pt 50 50)"
    by (simp add: promptOpen_def eval_defs)
  have trimmed: "trim (utf16 '' check elbow  '') = utf16 ''check elbow''"
    by (simp add: trim_def isWhiteSpace_def utf16_def)
  have empty: "annotations (promptOpen (utf16 '' check elbow  '')) = []"
    by (simp add: promptOpen_def eval_defs)
  have t: "textAnnotation (promptOpen (utf16 '' check elbow  '')) = utf16 '' check elbow  ''"
    by (simp add: promptOpen_def)
  show ?thesis
    using blank filled placed empty
      handleTextSubmit_text [of "promptOpen (utf16 ''   '')" 1000 "Loaded 2000" "pt 50 50"]
      handleTextSubmit_text [of "promptOpen (utf16 '' check elbow  '')" 1000 "Loaded 2000"
        "pt 50 50"]
      handleTextSubmit_text [of "promptOpen (utf16 '' check elbow  '')" 1000 Rejects "pt 50 50"]
    by (simp add: t trimmed positionSeconds_2000 del: positionSeconds.simps)
qed

text \<open>
  A text submitted while the status query fails creates nothing; a blank text submitted
  leaves the prompt open, and Cancel closes it.
\<close>

theorem handleTextSubmit_counterexample:
  "annotations (handleTextSubmit 1000 Rejects (promptOpen (utf16 ''check elbow''))) = []
   \<and> showTextInput (handleTextSubmit 1000 (Loaded 2000) (promptOpen (utf16 ''   '')))
   \<and> textPosition (handleTextSubmit 1000 (Loaded 2000) (promptOpen (utf16 ''   '')))
       = Some (pt 50 50)
   \<and> \<not> showTextInput (cancelTextInput (promptOpen (utf16 ''   '')))
   \<and> textPosition (cancelTextInput (promptOpen (utf16 ''   ''))) = None"
  by (simp add: promptOpen_def trim_def isWhiteSpace_def utf16_def eval_defs)

section \<open>Identifiers\<close>




section \<open>A player that is not loaded\<close>

text \<open>
  C10. When the player's status is not loaded (or there is no player to ask), the host
  still appends the annotation it is handed, with timestamp 0 in place of the one it
  came with; so the end of a drawing touch and the submission of a text both make their
  annotation, with timestamp 0.
\<close>

theorem timestamp_zero_when_not_loaded:
  "(st = NotLoaded \<or> st = NoRef) \<longrightarrow>
     annotations (handleAddAnnotation a st s) = annotations s @ [a\<lparr>timestamp := 0\<rparr>]
     \<and> (isDrawingMode s \<and> currentDrawing s = Some d \<and> status e = st \<longrightarrow>
          step e Release s =
            Inr (s\<lparr>annotations := annotations s @
                      [\<lparr>ann_id = toString (clock e), ann_type = shape_of (d_type d),
                        points = d_points d, timestamp = 0, ann_text = None\<rparr>],
                   currentDrawing := None\<rparr>))
     \<and> (textPosition s = Some position \<and> trim (textAnnotation s) \<noteq> [] \<longrightarrow>
          annotations (handleTextSubmit now st s) =
            annotations s @
              [\<lparr>ann_id = toString now, ann_type = Text, points = [position],
                timestamp = 0, ann_text = Some (trim (textAnnotation s))\<rparr>])"
  by (auto simp: handleAddAnnotation_def handleTextSubmit_def onPanResponderRelease_def
        deliver_def invoke_def)

theorem timestamp_zero_when_not_loaded_witness:
  "map_sum id (\<lambda>s. map timestamp (annotations s))
     (step (reading 1000 NotLoaded) Release (penDown\<lparr>currentTime := 5\<rparr>)) = Inr [0]
   \<and> map timestamp (annotations (handleTextSubmit 1000 NotLoaded (promptOpen (utf16 ''elbow'')))) = [0]"
proof -
  have draft: "isDrawingMode (penDown\<lparr>currentTime := 5\<rparr>)
      \<and> currentDrawing (penDown\<lparr>currentTime := 5\<rparr>)
          = Some \<lparr>d_type = DraftLine, d_points = [pt 10 10]\<rparr>
      \<and> status (reading 1000 NotLoaded) = NotLoaded"
    by (simp add: penDown_def eval_defs)
  have prompt: "textPosition (promptOpen (utf16 ''elbow'')) = Some (pt 50 50)
      \<and> trim (textAnnotation (promptOpen (utf16 ''elbow''))) \<noteq> []"
    by (simp add: promptOpen_def trim_def isWhiteSpace_def utf16_def eval_defs)
  have empty: "annotations (penDown\<lparr>currentTime := 5\<rparr>) = []"
    "annotations (promptOpen (utf16 ''elbow'')) = []"
    by (simp_all add: penDown_def promptOpen_def eval_defs)
  show ?thesis
    using draft prompt empty
      timestamp_zero_when_not_loaded [of NotLoaded labelAt50 "penDown\<lparr>currentTime := 5\<rparr>"
        "\<lparr>d_type = DraftLine, d_points = [pt 10 10]\<rparr>" "reading 1000 NotLoaded"]
      timestamp_zero_when_not_loaded [of NotLoaded labelAt50 "promptOpen (utf16 ''elbow'')"
        _ _ "pt 50 50" 1000]
    by simp
qed

end
